theory Spec2Isabelle
  imports Complex_Main
begin

section \<open>JavaScript numbers and values\<close>

text \<open>
  The scoreboard evaluator (\<^verbatim>\<open>ai-scoreboard.ts\<close>) and the evaluation framework
  (\<^verbatim>\<open>evaluation-framework.ts\<close>) compute on JavaScript numbers, which are IEEE-754
  binary64 values. A number is modelled as a real (the value of a finite double) or one of
  the three special values. Addition, multiplication and division compute the exact real
  result and round it to binary64 (\<open>round64\<close>), as the standard prescribes; comparisons,
  \<^verbatim>\<open>Math.min\<close>, \<^verbatim>\<open>Math.max\<close> and \<^verbatim>\<open>Math.round\<close> are exact. The sign of zero is not
  modelled: the single zero stands for \<open>+0\<close>, which is what a \<^verbatim>\<open>reduce\<close> that starts from
  the literal \<^verbatim>\<open>0\<close> yields when its sum is zero.
\<close>

datatype jsnum = Fin real | NaN | PosInf | NegInf

subsection \<open>Rounding to binary64\<close>

text \<open>
  The binary exponent of a non-zero real, never below that of the subnormal numbers:
  \<open>norm_up\<close> halves a value from 2 upwards, \<open>norm_down\<close> doubles a value below 1, counting
  the steps and stopping at \<open>-1022\<close>.
\<close>

function norm_up :: "real \<Rightarrow> int \<Rightarrow> int" where
  "norm_up x e = (if 2 \<le> x then norm_up (x / 2) (e + 1) else e)"
  by pat_completeness auto
termination
proof (relation "measure (\<lambda>(x, e). nat \<lfloor>x\<rfloor>)")
  show "wf (measure (\<lambda>(x::real, e::int). nat \<lfloor>x\<rfloor>))" by simp
next
  fix x :: real and e :: int
  assume "2 \<le> x"
  then have "\<lfloor>x / 2\<rfloor> < \<lfloor>x\<rfloor>" by linarith
  moreover have "0 < \<lfloor>x\<rfloor>" using \<open>2 \<le> x\<close> by linarith
  ultimately show "((x / 2, e + 1), (x, e)) \<in> measure (\<lambda>(x, e). nat \<lfloor>x\<rfloor>)" by simp
qed

function norm_down :: "real \<Rightarrow> int \<Rightarrow> int" where
  "norm_down x e = (if x < 1 \<and> - 1022 < e then norm_down (2 * x) (e - 1) else e)"
  by pat_completeness auto
termination
  by (relation "measure (\<lambda>(x, e). nat (e + 1022))") auto

declare norm_up.simps [simp del]
declare norm_down.simps [simp del]

definition exponent64 :: "real \<Rightarrow> int" where
  "exponent64 x = (if 1 \<le> \<bar>x\<bar> then norm_up \<bar>x\<bar> 0 else norm_down \<bar>x\<bar> 0)"

text \<open>The nearest integer, a tie going to the even one.\<close>

definition round_half_even :: "real \<Rightarrow> int" where
  "round_half_even t =
     (if t - of_int \<lfloor>t\<rfloor> < 1 / 2 then \<lfloor>t\<rfloor>
      else if 1 / 2 < t - of_int \<lfloor>t\<rfloor> then \<lfloor>t\<rfloor> + 1
      else if even \<lfloor>t\<rfloor> then \<lfloor>t\<rfloor> else \<lfloor>t\<rfloor> + 1)"

text \<open>
  Rounding to nearest, ties to even, with 53 significant bits: the value is rounded to a
  multiple of \<open>2\<close> to the power \<open>exponent - 52\<close>; a result of magnitude \<open>2^1024\<close> or more
  overflows to an infinity.
\<close>

definition round64 :: "real \<Rightarrow> jsnum" where
  "round64 x =
     (let q = 2 powi (exponent64 x - 52);
          y = of_int (round_half_even (x / q)) * q
      in if 2 ^ 1024 \<le> y then PosInf
         else if y \<le> - (2 ^ 1024) then NegInf
         else Fin y)"

text \<open>
  A decimal literal of the source, and a number in JSON text read by \<^verbatim>\<open>JSON.parse\<close>,
  denote the binary64 value nearest to the decimal.
\<close>

definition lit :: "real \<Rightarrow> jsnum" where
  "lit x = round64 x"

subsection \<open>Arithmetic and comparisons\<close>

fun is_fin :: "jsnum \<Rightarrow> bool" where
  "is_fin (Fin x) = True"
| "is_fin n = False"

fun val :: "jsnum \<Rightarrow> real" where
  "val (Fin x) = x"
| "val n = 0"

fun js_neg :: "jsnum \<Rightarrow> jsnum" where
  "js_neg (Fin a) = Fin (- a)"
| "js_neg NaN = NaN"
| "js_neg PosInf = NegInf"
| "js_neg NegInf = PosInf"

fun js_add :: "jsnum \<Rightarrow> jsnum \<Rightarrow> jsnum" where
  "js_add NaN b = NaN"
| "js_add a NaN = NaN"
| "js_add (Fin a) (Fin b) = round64 (a + b)"
| "js_add PosInf NegInf = NaN"
| "js_add NegInf PosInf = NaN"
| "js_add PosInf b = PosInf"
| "js_add NegInf b = NegInf"
| "js_add a PosInf = PosInf"
| "js_add a NegInf = NegInf"

definition js_sub :: "jsnum \<Rightarrow> jsnum \<Rightarrow> jsnum" where
  "js_sub a b = js_add a (js_neg b)"

text \<open>The sign of a non-NaN value: \<open>-1\<close>, \<open>0\<close> or \<open>1\<close>.\<close>

fun js_sgn :: "jsnum \<Rightarrow> int" where
  "js_sgn (Fin a) = (if a < 0 then - 1 else if a = 0 then 0 else 1)"
| "js_sgn PosInf = 1"
| "js_sgn NegInf = - 1"
| "js_sgn NaN = 0"

definition inf_of_sign :: "int \<Rightarrow> jsnum" where
  "inf_of_sign s = (if s = 0 then NaN else if 0 < s then PosInf else NegInf)"

fun js_mul :: "jsnum \<Rightarrow> jsnum \<Rightarrow> jsnum" where
  "js_mul NaN b = NaN"
| "js_mul a NaN = NaN"
| "js_mul (Fin a) (Fin b) = round64 (a * b)"
| "js_mul a b = inf_of_sign (js_sgn a * js_sgn b)"

text \<open>
  Division: a finite non-zero value over zero is an infinity of the numerator's sign,
  zero over zero is NaN, a finite value over an infinity is zero, and otherwise the
  quotient is rounded.
\<close>

fun js_div :: "jsnum \<Rightarrow> jsnum \<Rightarrow> jsnum" where
  "js_div NaN b = NaN"
| "js_div a NaN = NaN"
| "js_div (Fin a) (Fin b) = (if b = 0 then inf_of_sign (js_sgn (Fin a)) else round64 (a / b))"
| "js_div (Fin a) b = Fin 0"
| "js_div a (Fin b) = inf_of_sign (js_sgn a * (if b < 0 then - 1 else 1))"
| "js_div a b = NaN"

text \<open>Comparisons: every comparison with NaN is false.\<close>

fun js_lt :: "jsnum \<Rightarrow> jsnum \<Rightarrow> bool" where
  "js_lt NaN b = False"
| "js_lt a NaN = False"
| "js_lt (Fin a) (Fin b) = (a < b)"
| "js_lt PosInf b = False"
| "js_lt a NegInf = False"
| "js_lt NegInf b = True"
| "js_lt a PosInf = True"

definition js_gt :: "jsnum \<Rightarrow> jsnum \<Rightarrow> bool" where
  "js_gt a b = js_lt b a"

fun js_ge :: "jsnum \<Rightarrow> jsnum \<Rightarrow> bool" where
  "js_ge NaN b = False"
| "js_ge a NaN = False"
| "js_ge a b = (\<not> js_lt a b)"

text \<open>
  \<^verbatim>\<open>Math.min\<close>, \<^verbatim>\<open>Math.max\<close> (NaN if an argument is NaN) and \<^verbatim>\<open>Math.round\<close>
  (the nearest integer, a tie going up: \<open>\<lfloor>x + 1/2\<rfloor>\<close>).
\<close>

fun Math_min :: "jsnum \<Rightarrow> jsnum \<Rightarrow> jsnum" where
  "Math_min NaN b = NaN"
| "Math_min a NaN = NaN"
| "Math_min a b = (if js_lt b a then b else a)"

fun Math_max :: "jsnum \<Rightarrow> jsnum \<Rightarrow> jsnum" where
  "Math_max NaN b = NaN"
| "Math_max a NaN = NaN"
| "Math_max a b = (if js_lt a b then b else a)"

fun Math_round :: "jsnum \<Rightarrow> jsnum" where
  "Math_round (Fin x) = Fin (of_int \<lfloor>x + 1 / 2\<rfloor>)"
| "Math_round n = n"

text \<open>
  A value of type \<^verbatim>\<open>any\<close>, as \<^verbatim>\<open>JSON.parse\<close> can produce it for the \<^verbatim>\<open>score\<close> field of
  a raw judgment, or \<open>Undefined\<close> when the field is missing. An object or array carries
  the outcome of its conversion to a primitive: the string it converts to, or \<open>None\<close>
  when the conversion throws.
\<close>

datatype jsvalue =
    Undefined
  | Null
  | Boolean bool
  | Number jsnum
  | String string
  | Object "string option"

datatype error = TypeError | OracleFailure

text \<open>
  \<^verbatim>\<open>ToNumber\<close>, the coercion \<^verbatim>\<open>Math.min\<close> applies to its arguments. The conversion of a
  string to a number is the language's own (\<^verbatim>\<open>StringToNumber\<close>) and is taken as the
  parameter \<open>s2n\<close>.
\<close>

fun ToNumber :: "(string \<Rightarrow> jsnum) \<Rightarrow> jsvalue \<Rightarrow> error + jsnum" where
  "ToNumber s2n Undefined = Inr NaN"
| "ToNumber s2n Null = Inr (Fin 0)"
| "ToNumber s2n (Boolean b) = Inr (Fin (if b then 1 else 0))"
| "ToNumber s2n (Number n) = Inr n"
| "ToNumber s2n (String s) = Inr (s2n s)"
| "ToNumber s2n (Object None) = Inl TypeError"
| "ToNumber s2n (Object (Some s)) = Inr (s2n s)"

section \<open>Metric scores\<close>

datatype ScoreCategory =
    ACCURACY
  | COMPLETENESS
  | RELEVANCE
  | CLARITY
  | LEGAL_REASONING
  | FACTUAL_EXTRACTION
  | CLASSIFICATION_PRECISION
  | CITATION_QUALITY

datatype ScoreLevel = EXCELLENT | GOOD | SATISFACTORY | NEEDS_IMPROVEMENT | POOR

record MetricScore =
  category :: ScoreCategory
  score :: jsnum
  level :: ScoreLevel
  weight :: jsnum
  feedback :: string
  evidence :: "string list"

text \<open>\<^verbatim>\<open>getScoreLevel\<close>: the chain of \<^verbatim>\<open>if (score >= t) return ...\<close>, in the source's order.\<close>

definition getScoreLevel :: "jsnum \<Rightarrow> ScoreLevel" where
  "getScoreLevel s =
     (if js_ge s (Fin 9) then EXCELLENT
      else if js_ge s (Fin 7.5) then GOOD
      else if js_ge s (Fin 6) then SATISFACTORY
      else if js_ge s (Fin 4) then NEEDS_IMPROVEMENT
      else POOR)"

text \<open>
  A raw judgment as the oracle returns it: \<open>Nullish\<close> when the judgment itself is
  \<^verbatim>\<open>undefined\<close> or \<^verbatim>\<open>null\<close> (reading \<^verbatim>\<open>.score\<close> then throws), otherwise the three fields
  read from it. Following the evaluation schema, \<^verbatim>\<open>feedback\<close> is a string and
  \<^verbatim>\<open>evidence\<close> a list of strings when they are present.
\<close>

datatype RawScore =
    Nullish
  | Judgment jsvalue "string option" "string list option"

text \<open>\<^verbatim>\<open>rawScore.feedback || ''\<close> and \<^verbatim>\<open>rawScore.evidence || []\<close>: the empty string is falsy, an array never is.\<close>

fun feedback_or_empty :: "string option \<Rightarrow> string" where
  "feedback_or_empty None = []"
| "feedback_or_empty (Some s) = (if s = [] then [] else s)"

fun evidence_or_empty :: "string list option \<Rightarrow> string list" where
  "evidence_or_empty None = []"
| "evidence_or_empty (Some es) = es"

fun createMetricScore ::
  "(string \<Rightarrow> jsnum) \<Rightarrow> ScoreCategory \<Rightarrow> RawScore \<Rightarrow> jsnum \<Rightarrow> error + MetricScore" where
  "createMetricScore s2n c Nullish w = Inl TypeError"
| "createMetricScore s2n c (Judgment v fb ev) w =
     (case ToNumber s2n v of
        Inl e \<Rightarrow> Inl e
      | Inr n \<Rightarrow>
          (let s = Math_max (Fin 0) (Math_min (Fin 10) n) in
           Inr \<lparr>category = c, score = s, level = getScoreLevel s, weight = w,
                feedback = feedback_or_empty fb, evidence = evidence_or_empty ev\<rparr>))"


record SummarizationScores =
  factualAccuracy :: MetricScore
  completeness :: MetricScore
  clarity :: MetricScore
  legalReasoning :: MetricScore
  keyFactsExtraction :: MetricScore
  holdingIdentification :: MetricScore
  precedentRelevance :: MetricScore
  lengthAppropriate :: MetricScore

record ClassificationScores =
  primaryAreaAccuracy :: MetricScore
  confidenceReliability :: MetricScore
  secondaryAreaRelevance :: MetricScore
  subcategoryPrecision :: MetricScore
  reasoningQuality :: MetricScore
  legalAreaCoverage :: MetricScore





section \<open>Aggregation\<close>

text \<open>
  \<^verbatim>\<open>[...Object.values(summarizationScores), ...Object.values(classificationScores)]\<close>:
  the values in the order the keys were inserted.
\<close>

definition values_summarization :: "SummarizationScores \<Rightarrow> MetricScore list" where
  "values_summarization ss =
     [factualAccuracy ss, completeness ss, clarity ss, legalReasoning ss,
      keyFactsExtraction ss, holdingIdentification ss, precedentRelevance ss,
      lengthAppropriate ss]"

definition values_classification :: "ClassificationScores \<Rightarrow> MetricScore list" where
  "values_classification cs =
     [primaryAreaAccuracy cs, confidenceReliability cs, secondaryAreaRelevance cs,
      subcategoryPrecision cs, reasoningQuality cs, legalAreaCoverage cs]"

definition allScores :: "SummarizationScores \<Rightarrow> ClassificationScores \<Rightarrow> MetricScore list" where
  "allScores ss cs = values_summarization ss @ values_classification cs"

text \<open>
  The body of \<^verbatim>\<open>calculateOverallScore\<close> on the list \<^verbatim>\<open>allScores\<close>: the two
  \<^verbatim>\<open>reduce\<close> calls, then \<^verbatim>\<open>Math.round((weightedSum / totalWeight) * 100) / 100\<close>.
\<close>

definition weightedSum :: "MetricScore list \<Rightarrow> jsnum" where
  "weightedSum ms = foldl (\<lambda>sum metric. js_add sum (js_mul (score metric) (weight metric))) (Fin 0) ms"

definition totalWeight :: "MetricScore list \<Rightarrow> jsnum" where
  "totalWeight ms = foldl (\<lambda>sum metric. js_add sum (weight metric)) (Fin 0) ms"

definition overallScoreOf :: "MetricScore list \<Rightarrow> jsnum" where
  "overallScoreOf ms =
     js_div (Math_round (js_mul (js_div (weightedSum ms) (totalWeight ms)) (Fin 100))) (Fin 100)"

definition calculateOverallScore :: "SummarizationScores \<Rightarrow> ClassificationScores \<Rightarrow> jsnum" where
  "calculateOverallScore ss cs = overallScoreOf (allScores ss cs)"

text \<open>
  \<^verbatim>\<open>calculateAggregateMetrics\<close>: \<^verbatim>\<open>levelCounts\<close> is a dictionary from level to count, built by
  \<^verbatim>\<open>acc[metric.level] = (acc[metric.level] || 0) + 1\<close>; a missing key and a zero count both
  read as \<open>0\<close>.
\<close>

record AggregateMetrics =
  totalMetrics :: nat
  excellentCount :: nat
  goodCount :: nat
  satisfactoryCount :: nat
  needsImprovementCount :: nat
  poorCount :: nat





section \<open>Insights and the scoreboard\<close>

text \<open>The string values of the enum \<^verbatim>\<open>ScoreCategory\<close>.\<close>

fun category_string :: "ScoreCategory \<Rightarrow> string" where
  "category_string ACCURACY = ''accuracy''"
| "category_string COMPLETENESS = ''completeness''"
| "category_string RELEVANCE = ''relevance''"
| "category_string CLARITY = ''clarity''"
| "category_string LEGAL_REASONING = ''legal_reasoning''"
| "category_string FACTUAL_EXTRACTION = ''factual_extraction''"
| "category_string CLASSIFICATION_PRECISION = ''classification_precision''"
| "category_string CITATION_QUALITY = ''citation_quality''"

text \<open>
  The template \<^verbatim>\<open>`${s.category}: ${s.feedback}`\<close>, the first piece of
  \<^verbatim>\<open>w.split(':')\<close> (the text before the first colon, or all of it), and
  \<^verbatim>\<open>toLowerCase\<close> on the ASCII letters (strings are byte lists here; the source applies
  it to the text before the first colon only).
\<close>

definition insightEntry :: "MetricScore \<Rightarrow> string" where
  "insightEntry s = category_string (category s) @ '': '' @ feedback s"

definition split_colon_first :: "string \<Rightarrow> string" where
  "split_colon_first w = takeWhile (\<lambda>c. c \<noteq> CHR '':'') w"

definition toLowerCase :: "string \<Rightarrow> string" where
  "toLowerCase w =
     map (\<lambda>c. if 65 \<le> (of_char c :: nat) \<and> (of_char c :: nat) \<le> 90
              then char_of ((of_char c :: nat) + 32) else c) w"

definition isStrength :: "MetricScore \<Rightarrow> bool" where
  "isStrength s = (level s = EXCELLENT \<or> level s = GOOD)"

definition isWeakness :: "MetricScore \<Rightarrow> bool" where
  "isWeakness s = (level s = NEEDS_IMPROVEMENT \<or> level s = POOR)"

record AnalysisInsights =
  strengths :: "string list"
  weaknesses :: "string list"
  recommendations :: "string list"

definition generateAnalysisInsights ::
  "SummarizationScores \<Rightarrow> ClassificationScores \<Rightarrow> AnalysisInsights" where
  "generateAnalysisInsights ss cs =
     (let strengths = map insightEntry (filter isStrength (allScores ss cs));
          weaknesses = map insightEntry (filter isWeakness (allScores ss cs));
          recommendations =
            map (\<lambda>w. ''Improve '' @ toLowerCase (split_colon_first w)) weaknesses @
            [''Consider additional legal precedent research'',
             ''Review factual accuracy against source document'']
      in \<lparr>strengths = strengths, weaknesses = weaknesses, recommendations = recommendations\<rparr>)"

text \<open>
  The scoreboard: the three insight lists are copied into it, so the record extends
  \<open>AnalysisInsights\<close>. The document identifier, the timestamp, the benchmark comparison
  and the quality flags of the source are left out: they are computed after the fields
  kept here and do not change them.
\<close>

record LegalAnalysisScoreboard = AnalysisInsights +
  overallScore :: jsnum
  overallGrade :: ScoreLevel
  summarizationScores :: SummarizationScores
  classificationScores :: ClassificationScores
  aggregateMetrics :: AggregateMetrics


section \<open>The evaluation framework and its history\<close>

datatype TrendDirection = improving | stable | declining

record ComparisonToBaseline =
  percentageImprovement :: jsnum
  trendDirection :: TrendDirection

text \<open>
  An evaluation report, reduced to the scoreboard and to the \<^verbatim>\<open>comparisonToBaseline\<close> of
  its performance insights. The framework's state is \<^verbatim>\<open>evaluationHistory\<close>, a list of
  reports that only grows.
\<close>

record EvaluationReport =
  scoreboard :: LegalAnalysisScoreboard
  comparisonToBaseline :: ComparisonToBaseline

definition calculateImprovementFromHistory :: "EvaluationReport list \<Rightarrow> jsnum \<Rightarrow> jsnum" where
  "calculateImprovementFromHistory evaluationHistory currentScore =
     (if length evaluationHistory < 2 then Fin 0
      else
        (let previousScore =
               overallScore (scoreboard (evaluationHistory ! (length evaluationHistory - 2)))
         in js_mul (js_div (js_sub currentScore previousScore) previousScore) (Fin 100)))"

definition determineTrendDirection :: "EvaluationReport list \<Rightarrow> TrendDirection" where
  "determineTrendDirection evaluationHistory =
     (if length evaluationHistory < 3 then stable
      else
        (let recent = map (\<lambda>r. overallScore (scoreboard r))
                          (drop (length evaluationHistory - 3) evaluationHistory);
             trend = js_div (js_sub (recent ! 2) (recent ! 0)) (recent ! 0)
         in if js_gt trend (lit 0.05) then improving
            else if js_lt trend (js_neg (lit 0.05)) then declining
            else stable))"

definition generatePerformanceInsights ::
  "EvaluationReport list \<Rightarrow> LegalAnalysisScoreboard \<Rightarrow> ComparisonToBaseline" where
  "generatePerformanceInsights evaluationHistory sb =
     \<lparr>percentageImprovement = calculateImprovementFromHistory evaluationHistory (overallScore sb),
      trendDirection = determineTrendDirection evaluationHistory\<rparr>"

text \<open>
  \<^verbatim>\<open>runComprehensiveEvaluation\<close>, from step 3 on: the outcome of
  \<^verbatim>\<open>scoreboardEvaluator.evaluateAnalysis\<close> and of the oracle call that writes the
  improvement recommendations are arguments. The insights are computed (step 4) from the
  history as it stands, and the report is pushed last (step 7). A failing step leaves the
  history as it was.
\<close>

definition runComprehensiveEvaluation ::
  "EvaluationReport list \<Rightarrow> error + LegalAnalysisScoreboard \<Rightarrow> error + unit
     \<Rightarrow> (error + EvaluationReport) \<times> EvaluationReport list" where
  "runComprehensiveEvaluation evaluationHistory evaluated recommended =
     (case evaluated of
        Inl e \<Rightarrow> (Inl e, evaluationHistory)
      | Inr sb \<Rightarrow>
          (let performanceInsights = generatePerformanceInsights evaluationHistory sb in
           case recommended of
             Inl e \<Rightarrow> (Inl e, evaluationHistory)
           | Inr u \<Rightarrow>
               (let evaluationReport =
                      \<lparr>scoreboard = sb, comparisonToBaseline = performanceInsights\<rparr>
                in (Inr evaluationReport, evaluationHistory @ [evaluationReport]))))"

text \<open>
  Successive evaluations, one outcome of \<^verbatim>\<open>evaluateAnalysis\<close> after the other, from a
  given history (the recommendation call succeeding each time): the reports in order and
  the final history.
\<close>

fun runEvaluations ::
  "EvaluationReport list \<Rightarrow> (error + LegalAnalysisScoreboard) list
     \<Rightarrow> (error + EvaluationReport) list \<times> EvaluationReport list" where
  "runEvaluations h [] = ([], h)"
| "runEvaluations h (ev # evs) =
     (let (r, h') = runComprehensiveEvaluation h ev (Inr ());
          (rs, h'') = runEvaluations h' evs
      in (r # rs, h''))"

definition reportedChange :: "error + EvaluationReport \<Rightarrow> error + jsnum" where
  "reportedChange r = map_sum id (\<lambda>rep. percentageImprovement (comparisonToBaseline rep)) r"

definition reportedTrend :: "error + EvaluationReport \<Rightarrow> error + TrendDirection" where
  "reportedTrend r = map_sum id (\<lambda>rep. trendDirection (comparisonToBaseline rep)) r"

section \<open>Reference quantities and sample inputs\<close>

text \<open>
  The quantities the properties compare the code with: the unweighted mean of the scores,
  the exact weighted average, and rounding to the nearest hundredth (a tie going up).
\<close>

definition arithmeticMean :: "MetricScore list \<Rightarrow> real" where
  "arithmeticMean ms = (\<Sum>m\<leftarrow>ms. val (score m)) / real (length ms)"

definition exactWeightedAverage :: "MetricScore list \<Rightarrow> real" where
  "exactWeightedAverage ms =
     (\<Sum>m\<leftarrow>ms. val (score m) * val (weight m)) / (\<Sum>m\<leftarrow>ms. val (weight m))"

definition roundToHundredth :: "real \<Rightarrow> real" where
  "roundToHundredth x = of_int \<lfloor>x * 100 + 1 / 2\<rfloor> / 100"

text \<open>
  A metric within bounds: a finite score in [0,10], as the constructor yields for a
  numeric raw score, and a finite weight in \<open>[0, W]\<close>.
\<close>

definition boundedMetric :: "real \<Rightarrow> MetricScore \<Rightarrow> bool" where
  "boundedMetric W m =
     (is_fin (score m) \<and> is_fin (weight m) \<and> 0 \<le> val (score m) \<and> val (score m) \<le> 10
      \<and> 0 \<le> val (weight m) \<and> val (weight m) \<le> W)"

text \<open>
  Sample inputs: a metric whose score and weight are written as decimals, and score sets
  that repeat one metric.
\<close>

definition metricOf :: "real \<Rightarrow> real \<Rightarrow> MetricScore" where
  "metricOf s w =
     \<lparr>category = ACCURACY, score = lit s, level = getScoreLevel (lit s), weight = lit w,
      feedback = [], evidence = []\<rparr>"

definition uniformSummarization :: "MetricScore \<Rightarrow> SummarizationScores" where
  "uniformSummarization m =
     \<lparr>factualAccuracy = m, completeness = m, clarity = m, legalReasoning = m,
      keyFactsExtraction = m, holdingIdentification = m, precedentRelevance = m,
      lengthAppropriate = m\<rparr>"

definition uniformClassification :: "MetricScore \<Rightarrow> ClassificationScores" where
  "uniformClassification m =
     \<lparr>primaryAreaAccuracy = m, confidenceReliability = m, secondaryAreaRelevance = m,
      subcategoryPrecision = m, reasoningQuality = m, legalAreaCoverage = m\<rparr>"





section \<open>The error of rounding\<close>

text \<open>
  The exponent brackets the magnitude of its argument, so rounding a real of magnitude at
  most \<open>2^1000\<close> gives a finite value within a relative error of \<open>2^-53\<close>, or within
  \<open>2^-1075\<close> in the subnormal range.
\<close>

lemma two_powi_pos: "0 < (2::real) powi k"
  by simp

lemma two_powi_Suc: "(2::real) powi (k + 1) = 2 * 2 powi k"
  by (simp add: power_int_add)

lemma two_powi_pred: "(2::real) powi (k - 1) = 2 powi k / 2"
  by (simp add: power_int_diff)

lemma norm_up_bounds:
  "1 \<le> x \<Longrightarrow> e \<le> norm_up x e \<and> 2 powi (norm_up x e - e) \<le> x \<and> x < 2 powi (norm_up x e - e + 1)"
proof (induction x e rule: norm_up.induct)
  case (1 x e)
  show ?case
  proof (cases "2 \<le> x")
    case True
    then have eq: "norm_up x e = norm_up (x / 2) (e + 1)" by (subst norm_up.simps) auto
    from True have "1 \<le> x / 2" by simp
    from "1.IH" [OF True this]
    have ih: "e + 1 \<le> norm_up (x / 2) (e + 1)"
      "2 powi (norm_up (x / 2) (e + 1) - (e + 1)) \<le> x / 2"
      "x / 2 < 2 powi (norm_up (x / 2) (e + 1) - (e + 1) + 1)" by auto
    define r where "r = norm_up (x / 2) (e + 1)"
    have a: "(2::real) powi (r - e) = 2 * 2 powi (r - (e + 1))"
      using two_powi_Suc [of "r - (e + 1)"] by (simp add: algebra_simps)
    have b: "(2::real) powi (r - e + 1) = 2 * 2 powi (r - (e + 1) + 1)"
      using two_powi_Suc [of "r - (e + 1) + 1"] by (simp add: algebra_simps)
    show ?thesis unfolding eq r_def [symmetric] a b using ih unfolding r_def [symmetric] by simp
  next
    case False
    then have eq: "norm_up x e = e" by (subst norm_up.simps) auto
    show ?thesis unfolding eq using False "1.prems" by simp
  qed
qed

lemma norm_down_bounds:
  "x < 2 \<Longrightarrow> - 1022 \<le> e \<Longrightarrow>
   - 1022 \<le> norm_down x e \<and> x < 2 powi (norm_down x e - e + 1)
   \<and> (norm_down x e \<noteq> - 1022 \<longrightarrow> 2 powi (norm_down x e - e) \<le> x)"
proof (induction x e rule: norm_down.induct)
  case (1 x e)
  show ?case
  proof (cases "x < 1 \<and> - 1022 < e")
    case True
    then have eq: "norm_down x e = norm_down (2 * x) (e - 1)" by (subst norm_down.simps) auto
    from True have p: "2 * x < 2" "- 1022 \<le> e - 1" by simp_all
    define r where "r = norm_down (2 * x) (e - 1)"
    from "1.IH" [OF True p]
    have ih: "- 1022 \<le> r" "2 * x < 2 powi (r - (e - 1) + 1)"
      "r \<noteq> - 1022 \<longrightarrow> 2 powi (r - (e - 1)) \<le> 2 * x" unfolding r_def by auto
    have a: "(2::real) powi (r - (e - 1) + 1) = 2 * 2 powi (r - e + 1)"
      using two_powi_Suc [of "r - e + 1"] by (simp add: algebra_simps)
    have b: "(2::real) powi (r - (e - 1)) = 2 * 2 powi (r - e)"
      using two_powi_Suc [of "r - e"] by (simp add: algebra_simps)
    show ?thesis unfolding eq r_def [symmetric] using ih unfolding a b by simp
  next
    case False
    then have eq: "norm_down x e = e" by (subst norm_down.simps) auto
    show ?thesis unfolding eq using False "1.prems" by auto
  qed
qed

lemma exponent64_bounds:
  "- 1022 \<le> exponent64 x \<and> \<bar>x\<bar> < 2 powi (exponent64 x + 1)
   \<and> (exponent64 x \<noteq> - 1022 \<longrightarrow> 2 powi (exponent64 x) \<le> \<bar>x\<bar>)"
proof (cases "1 \<le> \<bar>x\<bar>")
  case True
  then have eq: "exponent64 x = norm_up \<bar>x\<bar> 0" by (simp add: exponent64_def)
  from norm_up_bounds [OF True, of 0] show ?thesis unfolding eq by simp
next
  case False
  then have eq: "exponent64 x = norm_down \<bar>x\<bar> 0" by (simp add: exponent64_def)
  from False have "\<bar>x\<bar> < 2" by simp
  from norm_down_bounds [OF this, of 0] show ?thesis unfolding eq by simp
qed

lemma round_half_even_close: "\<bar>of_int (round_half_even t) - t\<bar> \<le> 1 / 2"
  unfolding round_half_even_def by (auto; linarith)

lemma round64_error:
  assumes "\<bar>x\<bar> \<le> 2 ^ 1000"
  shows "\<exists>y. round64 x = Fin y \<and> \<bar>y - x\<bar> \<le> \<bar>x\<bar> / 2 ^ 53 + 1 / 2 ^ 1075"
proof -
  define e where "e = exponent64 x"
  define q :: real where "q = 2 powi (e - 52)"
  define y where "y = of_int (round_half_even (x / q)) * q"
  have qpos: "0 < q" unfolding q_def by simp
  from exponent64_bounds [of x]
  have lo: "- 1022 \<le> e" and nrm: "e \<noteq> - 1022 \<longrightarrow> 2 powi e \<le> \<bar>x\<bar>"
    unfolding e_def by auto
  have "y - x = q * (of_int (round_half_even (x / q)) - x / q)"
    using qpos unfolding y_def by (simp add: field_simps)
  then have "\<bar>y - x\<bar> = q * \<bar>of_int (round_half_even (x / q)) - x / q\<bar>"
    using qpos by (simp add: abs_mult abs_of_pos)
  also have "\<dots> \<le> q * (1 / 2)"
    using round_half_even_close [of "x / q"] qpos by (intro mult_left_mono) auto
  finally have yq: "\<bar>y - x\<bar> \<le> q / 2" by simp
  have q2: "q / 2 \<le> \<bar>x\<bar> / 2 ^ 53 + 1 / 2 ^ 1075"
  proof (cases "e = - 1022")
    case True
    have "q = 2 powi (- 1074)" unfolding q_def True by simp
    also have "\<dots> = 1 / 2 ^ 1074" by (simp add: power_int_minus divide_simps)
    finally have "q / 2 = 1 / 2 ^ 1075" by simp
    then show ?thesis by simp
  next
    case False
    with nrm have "2 powi e \<le> \<bar>x\<bar>" by simp
    moreover have "q = 2 powi e / 2 ^ 52" unfolding q_def by (simp add: power_int_diff)
    ultimately have "q / 2 \<le> \<bar>x\<bar> / 2 ^ 53" by (simp add: field_simps)
    then show ?thesis by simp
  qed
  have err: "\<bar>y - x\<bar> \<le> \<bar>x\<bar> / 2 ^ 53 + 1 / 2 ^ 1075" using yq q2 by linarith
  have "\<bar>x\<bar> / 2 ^ 53 \<le> \<bar>x\<bar>" by (simp add: field_simps)
  moreover have "(1::real) / 2 ^ 1075 \<le> 1" by simp
  ultimately have "\<bar>y\<bar> \<le> 2 * 2 ^ 1000 + 1" using err assms by linarith
  also have "\<dots> < (2::real) ^ 1024" by simp
  finally have "\<bar>y\<bar> < 2 ^ 1024" .
  then have "\<not> 2 ^ 1024 \<le> y" "\<not> y \<le> - (2 ^ 1024)" by linarith+
  then have "round64 x = Fin y"
    unfolding round64_def Let_def e_def [symmetric] q_def [symmetric] y_def [symmetric] by simp
  with err show ?thesis by blast
qed

lemma round64_within:
  assumes "\<bar>x\<bar> \<le> B" and "B \<le> 2 ^ 1000"
  shows "\<exists>y. round64 x = Fin y \<and> \<bar>y - x\<bar> \<le> B / 2 ^ 53 + 1 / 2 ^ 1075"
proof -
  from assms have "\<bar>x\<bar> \<le> 2 ^ 1000" by linarith
  from round64_error [OF this] obtain y where
    y: "round64 x = Fin y" "\<bar>y - x\<bar> \<le> \<bar>x\<bar> / 2 ^ 53 + 1 / 2 ^ 1075" by blast
  have "\<bar>x\<bar> / 2 ^ 53 \<le> B / 2 ^ 53" using assms(1) by (simp add: divide_right_mono)
  with y show ?thesis by (intro exI [of _ y]) linarith
qed

lemma round64_scaled:
  assumes "\<bar>x\<bar> \<le> 256 * W" and "1 / 2 ^ 500 \<le> W" and "W \<le> 2 ^ 500"
  shows "\<exists>y. round64 x = Fin y \<and> \<bar>y - x\<bar> \<le> W / 2 ^ 44"
proof -
  have "256 * W \<le> 256 * 2 ^ 500" using assms(3) by simp
  also have "\<dots> \<le> (2::real) ^ 1000" by simp
  finally have B: "256 * W \<le> 2 ^ 1000" .
  from round64_within [OF assms(1) B] obtain y where
    y: "round64 x = Fin y" "\<bar>y - x\<bar> \<le> 256 * W / 2 ^ 53 + 1 / 2 ^ 1075" by blast
  have a: "256 * W / 2 ^ 53 = W / 2 ^ 45" by simp
  have "(1::real) / 2 ^ 1075 = (1 / 2 ^ 500) / 2 ^ 575" by simp
  also have "\<dots> \<le> W / 2 ^ 575" using assms(2) by (intro divide_right_mono) simp_all
  also have "\<dots> \<le> W / 2 ^ 45"
  proof -
    have "0 \<le> W" using assms(2) by (smt (verit) zero_le_divide_1_iff zero_le_power)
    then show ?thesis by (intro divide_left_mono) simp_all
  qed
  finally have b: "(1::real) / 2 ^ 1075 \<le> W / 2 ^ 45" .
  have "W / 2 ^ 45 + W / 2 ^ 45 = W / 2 ^ 44" by simp
  with y a b show ?thesis by (intro exI [of _ y]) linarith
qed

section \<open>The tier classifier\<close>

text \<open>
  C1. The tier classifier is total on the real scores and returns exactly one tier:
  Excellent exactly from 9.0 up, Good exactly on [7.5, 9.0), Satisfactory exactly on
  [6.0, 7.5), NeedsImprovement exactly on [4.0, 6.0) and Poor exactly below 4.0. The five
  bands are disjoint and cover every real score; each of the boundary values 4.0, 6.0, 7.5
  and 9.0 belongs to the band it opens.
\<close>

theorem getScoreLevel_bands:
  "(getScoreLevel (Fin s) = EXCELLENT \<longleftrightarrow> 9 \<le> s)
   \<and> (getScoreLevel (Fin s) = GOOD \<longleftrightarrow> 7.5 \<le> s \<and> s < 9)
   \<and> (getScoreLevel (Fin s) = SATISFACTORY \<longleftrightarrow> 6 \<le> s \<and> s < 7.5)
   \<and> (getScoreLevel (Fin s) = NEEDS_IMPROVEMENT \<longleftrightarrow> 4 \<le> s \<and> s < 6)
   \<and> (getScoreLevel (Fin s) = POOR \<longleftrightarrow> s < 4)
   \<and> getScoreLevel (Fin 4) = NEEDS_IMPROVEMENT
   \<and> getScoreLevel (Fin 6) = SATISFACTORY
   \<and> getScoreLevel (Fin 7.5) = GOOD
   \<and> getScoreLevel (Fin 9) = EXCELLENT"
  by (simp add: getScoreLevel_def)

text \<open>The special values: NaN compares false with every threshold and falls through to Poor.\<close>

lemma getScoreLevel_special:
  "getScoreLevel NaN = POOR" "getScoreLevel PosInf = EXCELLENT" "getScoreLevel NegInf = POOR"
  by (simp_all add: getScoreLevel_def)

section \<open>Constructing a metric score\<close>

text \<open>
  C5. For every numeric raw score (a finite number, or an infinity as \<^verbatim>\<open>JSON.parse\<close> yields
  for an overlong literal) the construction succeeds, the score is the raw value clamped
  into [0,10] and the tier is the classifier applied to the clamped score. The raw
  judgment \<^verbatim>\<open>{score: 15}\<close> yields score 10 and tier Excellent.
\<close>

theorem createMetricScore_clamps:
  "createMetricScore s2n c (Judgment (Number (Fin x)) fb ev) w =
     Inr \<lparr>category = c, score = Fin (max 0 (min 10 x)),
          level = getScoreLevel (Fin (max 0 (min 10 x))), weight = w,
          feedback = feedback_or_empty fb, evidence = evidence_or_empty ev\<rparr>
   \<and> createMetricScore s2n c (Judgment (Number PosInf) fb ev) w =
     Inr \<lparr>category = c, score = Fin 10, level = EXCELLENT, weight = w,
          feedback = feedback_or_empty fb, evidence = evidence_or_empty ev\<rparr>
   \<and> createMetricScore s2n c (Judgment (Number NegInf) fb ev) w =
     Inr \<lparr>category = c, score = Fin 0, level = POOR, weight = w,
          feedback = feedback_or_empty fb, evidence = evidence_or_empty ev\<rparr>
   \<and> createMetricScore s2n c (Judgment (Number (Fin 15)) None None) w =
     Inr \<lparr>category = c, score = Fin 10, level = EXCELLENT, weight = w,
          feedback = [], evidence = []\<rparr>"
  by (simp add: getScoreLevel_def max_def min_def)

text \<open>
  C4, as the specification states it, fails: a raw judgment without a \<^verbatim>\<open>score\<close> field is
  accepted and yields a metric with score NaN and tier Poor, and a \<^verbatim>\<open>null\<close> score is
  coerced to 0.
\<close>

theorem createMetricScore_missing_score_accepted:
  "createMetricScore (\<lambda>s. NaN) ACCURACY (Judgment Undefined None None) (lit 0.2) =
     Inr \<lparr>category = ACCURACY, score = NaN, level = POOR, weight = lit 0.2,
          feedback = [], evidence = []\<rparr>
   \<and> createMetricScore (\<lambda>s. NaN) ACCURACY (Judgment Null None None) (lit 0.2) =
     Inr \<lparr>category = ACCURACY, score = Fin 0, level = POOR, weight = lit 0.2,
          feedback = [], evidence = []\<rparr>"
  by (simp add: getScoreLevel_def)

text \<open>
  C4, amended. For every raw judgment object whose score field is not a number but is
  coerced to one by the language (\<^verbatim>\<open>null\<close> to 0, \<^verbatim>\<open>true\<close> to 1, \<^verbatim>\<open>false\<close> to 0, a string
  or an array through the conversion of strings to numbers, such as \<^verbatim>\<open>'7'\<close> to 7), the
  construction raises no error: it returns a metric whose score is the coerced number
  clamped into [0,10] and whose tier is the classifier applied to that score. Nothing is
  said of a score field whose coercion is NaN.
\<close>

theorem createMetricScore_coerces:
  "(ToNumber s2n v = Inr (Fin x) \<longrightarrow>
      createMetricScore s2n c (Judgment v fb ev) w =
        Inr \<lparr>category = c, score = Fin (max 0 (min 10 x)),
             level = getScoreLevel (Fin (max 0 (min 10 x))), weight = w,
             feedback = feedback_or_empty fb, evidence = evidence_or_empty ev\<rparr>)
   \<and> (ToNumber s2n v = Inr PosInf \<longrightarrow>
      createMetricScore s2n c (Judgment v fb ev) w =
        Inr \<lparr>category = c, score = Fin 10, level = EXCELLENT, weight = w,
             feedback = feedback_or_empty fb, evidence = evidence_or_empty ev\<rparr>)
   \<and> (ToNumber s2n v = Inr NegInf \<longrightarrow>
      createMetricScore s2n c (Judgment v fb ev) w =
        Inr \<lparr>category = c, score = Fin 0, level = POOR, weight = w,
             feedback = feedback_or_empty fb, evidence = evidence_or_empty ev\<rparr>)
   \<and> ToNumber s2n Null = Inr (Fin 0)
   \<and> ToNumber s2n (Boolean True) = Inr (Fin 1)
   \<and> ToNumber s2n (Boolean False) = Inr (Fin 0)
   \<and> ToNumber s2n (String t) = Inr (s2n t)
   \<and> ToNumber s2n (Object (Some t)) = Inr (s2n t)"
  by (simp add: getScoreLevel_def max_def min_def)

text \<open>The score \<^verbatim>\<open>'7'\<close>, a string, is accepted as 7; \<^verbatim>\<open>true\<close> is accepted as 1.\<close>

theorem createMetricScore_coerces_witness:
  "createMetricScore (\<lambda>s. if s = ''7'' then Fin 7 else NaN) CLARITY
       (Judgment (String ''7'') (Some ''ok'') None) (lit 0.1) =
     Inr \<lparr>category = CLARITY, score = Fin 7, level = SATISFACTORY, weight = lit 0.1,
          feedback = ''ok'', evidence = []\<rparr>
   \<and> createMetricScore (\<lambda>s. NaN) CLARITY (Judgment (Boolean True) None None) (lit 0.1) =
     Inr \<lparr>category = CLARITY, score = Fin 1, level = POOR, weight = lit 0.1,
          feedback = [], evidence = []\<rparr>"
proof -
  have h1: "ToNumber (\<lambda>s. if s = ''7'' then Fin 7 else NaN) (String ''7'') = Inr (Fin 7)"
    by simp
  have h2: "ToNumber (\<lambda>s. NaN) (Boolean True) = Inr (Fin 1)"
    by simp
  from createMetricScore_coerces
         [of "\<lambda>s. if s = ''7'' then Fin 7 else NaN" "String ''7''" 7 CLARITY "Some ''ok''" None
             "lit 0.1"]
       createMetricScore_coerces
         [of "\<lambda>s. NaN" "Boolean True" 1 CLARITY None None "lit 0.1"]
       h1 h2
  show ?thesis by (simp add: getScoreLevel_def)
qed

section \<open>Evaluating the model\<close>


lemmas sample_defs =
  metricOf_def uniformSummarization_def uniformClassification_def allScores_def
  values_summarization_def values_classification_def

lemmas aggregation_defs =
  calculateOverallScore_def overallScoreOf_def weightedSum_def totalWeight_def



section \<open>The weighted aggregation\<close>

text \<open>
  On metrics within bounds, every operation of the two \<^verbatim>\<open>reduce\<close> calls rounds a value of
  magnitude at most \<open>256 W\<close>, with an error of at most \<open>K\<close>; the computed sums stay within
  \<open>2 K\<close> and \<open>K\<close> per metric of the exact sums.
\<close>

lemma boundedMetricE:
  assumes "boundedMetric W m"
  obtains s w where "score m = Fin s" "weight m = Fin w" "0 \<le> s" "s \<le> 10" "0 \<le> w" "w \<le> W"
  using assms unfolding boundedMetric_def
  by (cases "score m"; cases "weight m"; simp)

lemma weighted_fold_close:
  assumes "\<forall>m\<in>set ms. boundedMetric W m"
    and rnd: "\<And>x. \<bar>x\<bar> \<le> 256 * W \<Longrightarrow> \<exists>y. round64 x = Fin y \<and> \<bar>y - x\<bar> \<le> K"
    and "0 < W" and "0 \<le> K" and "K \<le> W"
    and "\<bar>a - A\<bar> \<le> d" and "0 \<le> A" and "0 \<le> d"
    and "A + 10 * W * real (length ms) \<le> 140 * W"
    and "d + 2 * K * real (length ms) \<le> W"
  shows "\<exists>a'. foldl (\<lambda>sum metric. js_add sum (js_mul (score metric) (weight metric))) (Fin a) ms = Fin a'
           \<and> \<bar>a' - (A + (\<Sum>m\<leftarrow>ms. val (score m) * val (weight m)))\<bar>
               \<le> d + 2 * K * real (length ms)"
  using assms(1,6-)
proof (induction ms arbitrary: a A d)
  case Nil
  then show ?case by simp
next
  case (Cons m ms)
  note Wpos = \<open>0 < W\<close> and Kpos = \<open>0 \<le> K\<close> and KW = \<open>K \<le> W\<close>
  define L where "L = real (length ms)"
  have L0: "0 \<le> L" unfolding L_def by simp
  have len: "real (length (m # ms)) = L + 1" unfolding L_def by simp
  have WL: "0 \<le> W * L" using Wpos L0 by simp
  have KL: "0 \<le> K * L" using Kpos L0 by simp
  have dW: "10 * W * (L + 1) = 10 * W * L + 10 * W" by (simp add: distrib_left)
  have dK: "2 * K * (L + 1) = 2 * K * L + 2 * K" by (simp add: distrib_left)
  have P7: "A + (10 * W * L + 10 * W) \<le> 140 * W" using Cons.prems(5) unfolding len dW .
  have P8: "d + (2 * K * L + 2 * K) \<le> W" using Cons.prems(6) unfolding len dK .
  from Cons.prems(1) have bm: "boundedMetric W m" and rest: "\<forall>m\<in>set ms. boundedMetric W m" by simp_all
  from bm obtain s w where sw: "score m = Fin s" "weight m = Fin w"
    "0 \<le> s" "s \<le> 10" "0 \<le> w" "w \<le> W" by (rule boundedMetricE)
  have p0: "0 \<le> s * w" using sw by simp
  have p1: "s * w \<le> 10 * W" using sw by (intro mult_mono) simp_all
  have "\<bar>s * w\<bar> \<le> 256 * W" using p0 p1 Wpos by simp
  from rnd [OF this] obtain p where
    p: "round64 (s * w) = Fin p" "\<bar>p - s * w\<bar> \<le> K" by blast
  have "\<bar>a + p\<bar> \<le> 256 * W"
    using Cons.prems(2,3) P7 P8 p(2) p0 p1 Kpos KW Wpos WL KL by linarith
  from rnd [OF this] obtain a1 where
    a1: "round64 (a + p) = Fin a1" "\<bar>a1 - (a + p)\<bar> \<le> K" by blast
  have step: "js_add (Fin a) (js_mul (score m) (weight m)) = Fin a1"
    using sw p a1 by simp
  have e1: "\<bar>a1 - (A + s * w)\<bar> \<le> d + 2 * K"
    using a1(2) p(2) Cons.prems(2) by linarith
  have c5: "0 \<le> A + s * w" using Cons.prems(3) p0 by simp
  have c6: "0 \<le> d + 2 * K" using Cons.prems(4) Kpos by simp
  have c7: "(A + s * w) + 10 * W * real (length ms) \<le> 140 * W"
    unfolding L_def [symmetric] using P7 p1 by linarith
  have c8: "(d + 2 * K) + 2 * K * real (length ms) \<le> W"
    unfolding L_def [symmetric] using P8 by linarith
  from Cons.IH [OF rest e1 c5 c6 c7 c8] obtain a' where
    a': "foldl (\<lambda>sum metric. js_add sum (js_mul (score metric) (weight metric))) (Fin a1) ms = Fin a'"
    "\<bar>a' - (A + s * w + (\<Sum>m\<leftarrow>ms. val (score m) * val (weight m)))\<bar>
       \<le> d + 2 * K + 2 * K * real (length ms)" by blast
  show ?case
  proof (intro exI [of _ a'] conjI)
    show "foldl (\<lambda>sum metric. js_add sum (js_mul (score metric) (weight metric))) (Fin a) (m # ms) = Fin a'"
      using step a'(1) by simp
    have se: "(\<Sum>m\<leftarrow>m # ms. val (score m) * val (weight m)) =
              s * w + (\<Sum>m\<leftarrow>ms. val (score m) * val (weight m))"
      using sw by simp
    show "\<bar>a' - (A + (\<Sum>m\<leftarrow>m # ms. val (score m) * val (weight m)))\<bar>
            \<le> d + 2 * K * real (length (m # ms))"
      unfolding se len dK using a'(2) unfolding L_def [symmetric] by linarith
  qed
qed

lemma weight_fold_close:
  assumes "\<forall>m\<in>set ms. boundedMetric W m"
    and rnd: "\<And>x. \<bar>x\<bar> \<le> 256 * W \<Longrightarrow> \<exists>y. round64 x = Fin y \<and> \<bar>y - x\<bar> \<le> K"
    and "0 < W" and "0 \<le> K" and "K \<le> W"
    and "\<bar>a - A\<bar> \<le> d" and "0 \<le> A" and "0 \<le> d"
    and "A + W * real (length ms) \<le> 14 * W"
    and "d + K * real (length ms) \<le> W"
  shows "\<exists>a'. foldl (\<lambda>sum metric. js_add sum (weight metric)) (Fin a) ms = Fin a'
           \<and> \<bar>a' - (A + (\<Sum>m\<leftarrow>ms. val (weight m)))\<bar> \<le> d + K * real (length ms)"
  using assms(1,6-)
proof (induction ms arbitrary: a A d)
  case Nil
  then show ?case by simp
next
  case (Cons m ms)
  note Wpos = \<open>0 < W\<close> and Kpos = \<open>0 \<le> K\<close> and KW = \<open>K \<le> W\<close>
  define L where "L = real (length ms)"
  have L0: "0 \<le> L" unfolding L_def by simp
  have len: "real (length (m # ms)) = L + 1" unfolding L_def by simp
  have WL: "0 \<le> W * L" using Wpos L0 by simp
  have KL: "0 \<le> K * L" using Kpos L0 by simp
  have dW: "W * (L + 1) = W * L + W" by (simp add: distrib_left)
  have dK: "K * (L + 1) = K * L + K" by (simp add: distrib_left)
  have P7: "A + (W * L + W) \<le> 14 * W" using Cons.prems(5) unfolding len dW .
  have P8: "d + (K * L + K) \<le> W" using Cons.prems(6) unfolding len dK .
  from Cons.prems(1) have bm: "boundedMetric W m" and rest: "\<forall>m\<in>set ms. boundedMetric W m" by simp_all
  from bm obtain s w where sw: "score m = Fin s" "weight m = Fin w"
    "0 \<le> s" "s \<le> 10" "0 \<le> w" "w \<le> W" by (rule boundedMetricE)
  have "\<bar>a + w\<bar> \<le> 256 * W"
    using Cons.prems(2,3) P7 P8 sw(5,6) Kpos KW Wpos WL KL by linarith
  from rnd [OF this] obtain a1 where
    a1: "round64 (a + w) = Fin a1" "\<bar>a1 - (a + w)\<bar> \<le> K" by blast
  have step: "js_add (Fin a) (weight m) = Fin a1"
    using sw a1 by simp
  have e1: "\<bar>a1 - (A + w)\<bar> \<le> d + K"
    using a1(2) Cons.prems(2) by linarith
  have c5: "0 \<le> A + w" using Cons.prems(3) sw(5) by simp
  have c6: "0 \<le> d + K" using Cons.prems(4) Kpos by simp
  have c7: "(A + w) + W * real (length ms) \<le> 14 * W"
    unfolding L_def [symmetric] using P7 sw(6) by linarith
  have c8: "(d + K) + K * real (length ms) \<le> W"
    unfolding L_def [symmetric] using P8 by linarith
  from Cons.IH [OF rest e1 c5 c6 c7 c8] obtain a' where
    a': "foldl (\<lambda>sum metric. js_add sum (weight metric)) (Fin a1) ms = Fin a'"
    "\<bar>a' - (A + w + (\<Sum>m\<leftarrow>ms. val (weight m)))\<bar> \<le> d + K + K * real (length ms)" by blast
  show ?case
  proof (intro exI [of _ a'] conjI)
    show "foldl (\<lambda>sum metric. js_add sum (weight metric)) (Fin a) (m # ms) = Fin a'"
      using step a'(1) by simp
    have se: "(\<Sum>m\<leftarrow>m # ms. val (weight m)) = w + (\<Sum>m\<leftarrow>ms. val (weight m))"
      using sw by simp
    show "\<bar>a' - (A + (\<Sum>m\<leftarrow>m # ms. val (weight m)))\<bar> \<le> d + K * real (length (m # ms))"
      unfolding se len dK using a'(2) unfolding L_def [symmetric] by linarith
  qed
qed

text \<open>
  With at most 14 metrics within bounds and a total weight of at least \<open>W\<close>, the overall
  score is the binary64 value of a whole number \<open>k\<close> of hundredths, and \<open>k / 100\<close> is
  within 0.005 (and \<open>10^-10\<close>) of the exact weighted average.
\<close>

lemma bounded_sums:
  assumes "\<forall>m\<in>set ms. boundedMetric W m"
  shows "0 \<le> (\<Sum>m\<leftarrow>ms. val (score m) * val (weight m))"
    and "(\<Sum>m\<leftarrow>ms. val (score m) * val (weight m)) \<le> 10 * (\<Sum>m\<leftarrow>ms. val (weight m))"
    and "0 \<le> (\<Sum>m\<leftarrow>ms. val (weight m))"
  using assms
proof (induction ms)
  case Nil
  { case 1 show ?case by simp }
  { case 2 show ?case by simp }
  { case 3 show ?case by simp }
next
  case (Cons m ms)
  { case 1
    from 1 obtain s w where sw: "score m = Fin s" "weight m = Fin w" "0 \<le> s" "s \<le> 10" "0 \<le> w" "w \<le> W"
      by (auto elim: boundedMetricE)
    from 1 have "0 \<le> (\<Sum>m\<leftarrow>ms. val (score m) * val (weight m))" using Cons.IH(1) by simp
    then show ?case using sw by simp }
  { case 2
    from 2 obtain s w where sw: "score m = Fin s" "weight m = Fin w" "0 \<le> s" "s \<le> 10" "0 \<le> w" "w \<le> W"
      by (auto elim: boundedMetricE)
    from 2 have ih: "(\<Sum>m\<leftarrow>ms. val (score m) * val (weight m)) \<le> 10 * (\<Sum>m\<leftarrow>ms. val (weight m))"
      using Cons.IH(2) by simp
    have "s * w \<le> 10 * w" using sw by (intro mult_right_mono) simp_all
    then show ?case using sw ih by simp }
  { case 3
    from 3 obtain s w where sw: "score m = Fin s" "weight m = Fin w" "0 \<le> s" "s \<le> 10" "0 \<le> w" "w \<le> W"
      by (auto elim: boundedMetricE)
    from 3 have "0 \<le> (\<Sum>m\<leftarrow>ms. val (weight m))" using Cons.IH(3) by simp
    then show ?case using sw by simp }
qed

lemma overallScoreOf_close:
  assumes bm: "\<forall>m\<in>set ms. boundedMetric W m" and len: "length ms \<le> 14"
    and W1: "1 / 2 ^ 500 \<le> W" and W2: "W \<le> 2 ^ 500"
    and tot: "W \<le> (\<Sum>m\<leftarrow>ms. val (weight m))"
  shows "\<exists>k r. overallScoreOf ms = Fin r \<and> round64 (of_int k / 100) = Fin r
           \<and> \<bar>of_int k / 100 - exactWeightedAverage ms\<bar> \<le> 1 / 200 + 1 / 10 ^ 10
           \<and> \<bar>r - exactWeightedAverage ms\<bar> \<le> 1 / 200 + 1 / 10 ^ 10"
proof -
  define c :: real where "c = 1 / 2 ^ 44"
  define K where "K = W * c"
  define S where "S = (\<Sum>m\<leftarrow>ms. val (score m) * val (weight m))"
  define T where "T = (\<Sum>m\<leftarrow>ms. val (weight m))"
  define L where "L = real (length ms)"
  have cpos: "0 < c" and c13: "c \<le> 1 / 10000000000000" unfolding c_def by simp_all
  have Wpos: "0 < W" using W1 by (smt (verit) divide_pos_pos zero_less_power)
  have Kpos: "0 \<le> K" unfolding K_def using Wpos cpos by simp
  have K28: "28 * K \<le> W / 2"
  proof -
    have "28 * c \<le> 1 / 2" using c13 by simp
    then have "W * (28 * c) \<le> W * (1 / 2)" using Wpos by (intro mult_left_mono) simp_all
    then show ?thesis unfolding K_def by (simp add: algebra_simps)
  qed
  have KW: "K \<le> W" using K28 Kpos Wpos by linarith
  have Kdef: "K = W / 2 ^ 44" unfolding K_def c_def by simp
  have rnd: "\<exists>y. round64 x = Fin y \<and> \<bar>y - x\<bar> \<le> K" if "\<bar>x\<bar> \<le> 256 * W" for x
    using round64_scaled [OF that W1 W2] unfolding Kdef .
  have L14: "L \<le> 14" and L0: "0 \<le> L" unfolding L_def using len by simp_all
  have WL: "W * L \<le> W * 14" using L14 Wpos by (intro mult_left_mono) simp_all
  have KL: "K * L \<le> K * 14" using L14 Kpos by (intro mult_left_mono) simp_all
  have KL0: "0 \<le> K * L" using Kpos L0 by simp
  have h7: "0 + 10 * W * real (length ms) \<le> 140 * W"
    unfolding L_def [symmetric] using WL by (simp add: algebra_simps)
  have h8: "0 + 2 * K * real (length ms) \<le> W"
    unfolding L_def [symmetric] using KL K28 Wpos by (simp add: algebra_simps)
  from weighted_fold_close [where a = 0 and A = 0 and d = 0, OF bm rnd Wpos Kpos KW _ _ _ h7 h8]
  obtain ws where ws: "weightedSum ms = Fin ws" "\<bar>ws - S\<bar> \<le> 2 * K * L"
    unfolding weightedSum_def S_def L_def by auto
  have h7': "0 + W * real (length ms) \<le> 14 * W"
    unfolding L_def [symmetric] using WL by (simp add: algebra_simps)
  have h8': "0 + K * real (length ms) \<le> W"
    unfolding L_def [symmetric] using KL K28 Wpos Kpos by (simp add: algebra_simps)
  from weight_fold_close [where a = 0 and A = 0 and d = 0, OF bm rnd Wpos Kpos KW _ _ _ h7' h8']
  obtain tw where tw: "totalWeight ms = Fin tw" "\<bar>tw - T\<bar> \<le> K * L"
    unfolding totalWeight_def T_def L_def by auto
  have E1: "\<bar>ws - S\<bar> \<le> 28 * K" using ws(2) KL by linarith
  have E2: "\<bar>tw - T\<bar> \<le> 14 * K" using tw(2) KL by linarith
  have TW: "W \<le> T" using tot unfolding T_def .
  have Tpos: "0 < T" using TW Wpos by linarith
  have S0: "0 \<le> S" and S10: "S \<le> 10 * T"
    using bounded_sums(1,2) [OF bm] unfolding S_def T_def by simp_all
  have twlo: "W / 2 \<le> tw" using E2 TW K28 Kpos by linarith
  have twpos: "0 < tw" using twlo Wpos by linarith
  define avg where "avg = S / T"
  have avg_eq: "exactWeightedAverage ms = avg"
    unfolding avg_def S_def T_def exactWeightedAverage_def ..
  have avg0: "0 \<le> avg" unfolding avg_def using S0 Tpos by simp
  have avg10: "avg \<le> 10" unfolding avg_def using S10 Tpos by (simp add: divide_le_eq)
  define Q where "Q = ws / tw"
  have num: "\<bar>ws * T - S * tw\<bar> \<le> 168 * K * T"
  proof -
    have "ws * T - S * tw = (ws - S) * T - S * (tw - T)" by (simp add: algebra_simps)
    moreover have "\<bar>(ws - S) * T\<bar> \<le> 28 * K * T"
      using E1 Tpos by (simp add: abs_mult mult_right_mono)
    moreover have "\<bar>S * (tw - T)\<bar> \<le> 140 * K * T"
    proof -
      have "\<bar>S * (tw - T)\<bar> = S * \<bar>tw - T\<bar>" using S0 by (simp add: abs_mult)
      also have "\<dots> \<le> (10 * T) * (14 * K)"
        using S10 E2 S0 by (intro mult_mono) simp_all
      finally show ?thesis by (simp add: algebra_simps)
    qed
    ultimately show ?thesis by linarith
  qed
  have Qavg: "\<bar>Q - avg\<bar> \<le> 336 * c"
  proof -
    have "Q - avg = (ws * T - S * tw) / (tw * T)"
      unfolding Q_def avg_def using twpos Tpos by (simp add: field_simps)
    then have "\<bar>Q - avg\<bar> = \<bar>ws * T - S * tw\<bar> / (tw * T)"
      using twpos Tpos by (simp add: abs_mult abs_of_pos)
    also have "\<dots> \<le> 168 * K * T / (tw * T)"
      using num twpos Tpos by (intro divide_right_mono) simp_all
    also have "\<dots> = 168 * K / tw" using Tpos by simp
    also have "\<dots> \<le> 168 * K / (W / 2)"
      using twlo Wpos Kpos by (intro divide_left_mono) simp_all
    also have "\<dots> = 336 * c" unfolding K_def using Wpos by simp
    finally show ?thesis .
  qed
  have Qabs: "\<bar>Q\<bar> \<le> 11" using Qavg avg0 avg10 c13 by linarith
  have n1: "(11::real) / 2 ^ 53 + 1 / 2 ^ 1075 \<le> c" unfolding c_def by simp
  from round64_within [OF Qabs] obtain q where
    q: "round64 Q = Fin q" "\<bar>q - Q\<bar> \<le> 11 / 2 ^ 53 + 1 / 2 ^ 1075" by auto
  have divq: "js_div (weightedSum ms) (totalWeight ms) = Fin q"
    using ws(1) tw(1) twpos q(1) unfolding Q_def by simp
  have qavg: "\<bar>q - avg\<bar> \<le> 337 * c" using q(2) n1 Qavg by linarith
  have xabs: "\<bar>q * 100\<bar> \<le> 2048" using qavg avg0 avg10 c13 by linarith
  have n2: "(2048::real) / 2 ^ 53 + 1 / 2 ^ 1075 \<le> 5 * c" unfolding c_def by simp
  from round64_within [OF xabs] obtain m where
    m: "round64 (q * 100) = Fin m" "\<bar>m - q * 100\<bar> \<le> 2048 / 2 ^ 53 + 1 / 2 ^ 1075" by auto
  have mulm: "js_mul (Fin q) (Fin 100) = Fin m" using m(1) by simp
  have mavg: "\<bar>m - 100 * avg\<bar> \<le> 33705 * c" using m(2) n2 qavg by linarith
  define k where "k = \<lfloor>m + 1 / 2\<rfloor>"
  have rk: "Math_round (Fin m) = Fin (of_int k)" unfolding k_def by simp
  have km: "\<bar>of_int k - m\<bar> \<le> 1 / 2" unfolding k_def by linarith
  have yabs: "\<bar>of_int k / 100\<bar> \<le> (12::real)" using km mavg avg0 avg10 c13 by linarith
  have n3: "(12::real) / 2 ^ 53 + 1 / 2 ^ 1075 \<le> c" unfolding c_def by simp
  from round64_within [OF yabs] obtain r where
    r: "round64 (of_int k / 100) = Fin r" "\<bar>r - of_int k / 100\<bar> \<le> 12 / 2 ^ 53 + 1 / 2 ^ 1075"
    by auto
  have res: "overallScoreOf ms = Fin r"
    unfolding overallScoreOf_def divq mulm rk using r(1) by simp
  have ky: "\<bar>of_int k / 100 - avg\<bar> \<le> 1 / 200 + 338 * c" using km mavg by linarith
  have ry: "\<bar>r - avg\<bar> \<le> 1 / 200 + 339 * c" using ky r(2) n3 by linarith
  have "338 * c \<le> 1 / 10 ^ 10" "339 * c \<le> 1 / 10 ^ 10" using c13 by simp_all
  with ky ry have "\<bar>of_int k / 100 - avg\<bar> \<le> 1 / 200 + 1 / 10 ^ 10"
    "\<bar>r - avg\<bar> \<le> 1 / 200 + 1 / 10 ^ 10" by linarith+
  with res r(1) show ?thesis unfolding avg_eq by blast
qed

section \<open>The aggregate metrics counter\<close>





section \<open>Strengths, weaknesses and recommendations\<close>

lemma category_string_no_colon: "CHR '':'' \<notin> set (category_string c)"
  by (cases c) simp_all

lemma takeWhile_upto: "x \<notin> set xs \<Longrightarrow> takeWhile (\<lambda>c. c \<noteq> x) (xs @ x # ys) = xs"
  by (induction xs) auto

lemma split_colon_first_entry:
  "split_colon_first (insightEntry m) = category_string (category m)"
  using takeWhile_upto [OF category_string_no_colon, of "category m" "'' '' @ feedback m"]
  by (simp add: split_colon_first_def insightEntry_def)

lemma toLowerCase_category: "toLowerCase (category_string c) = category_string c"
  by (cases c) (simp_all add: toLowerCase_def)

text \<open>Each recommendation drawn from a weakness names the category of the weak metric.\<close>

lemma recommendations_by_category:
  "recommendations (generateAnalysisInsights ss cs) =
     map (\<lambda>m. ''Improve '' @ category_string (category m))
         (filter isWeakness (allScores ss cs)) @
     [''Consider additional legal precedent research'',
      ''Review factual accuracy against source document'']"
  by (simp add: generateAnalysisInsights_def Let_def split_colon_first_entry
      toLowerCase_category comp_def)






end
